theory Spec2Isabelle
  imports Main "HOL-Library.Word" "HOL-Library.AList"
begin

section \<open>The Storj datastore adapter (storj.go)\<close>

text \<open>
  The adapter maps the key-value contract of go-datastore onto the object store
  behind an uplink project. The remote service is not part of the program: it is
  a record of operations over a state of any type, so every theorem holds for
  every behaviour of the service. The logger calls of the source write formatted
  lines to a sink that no operation reads back; they are left out.
\<close>

subsection \<open>Values of the Go runtime and of the libraries\<close>

text \<open>
  A byte slice is a list of characters (a \<^typ>\<open>char\<close> is a byte). The source
  never compares a byte slice with nil, so nil and the empty slice are both
  \<^term>\<open>[] :: char list\<close>. The build targets a 64-bit platform: Go's int
  has 64 bits there, as int64 has.
\<close>

type_synonym bytes = "char list"
type_synonym int64 = "64 word"
type_synonym go_int = "64 word"

text \<open>Go's conversion \<^verbatim>\<open>int(x)\<close> of an int64.\<close>

definition to_int :: "int64 \<Rightarrow> go_int" where
  "to_int x = scast x"

text \<open>
  Error values. \<open>ErrObjectNotFound\<close> is uplink's sentinel, \<open>ErrNotFound\<close> the
  datastore's, \<open>EOF\<close> is io.EOF, \<open>ErrorString\<close> an error made by errors.New or
  fmt.Errorf, and \<open>Wrap msg e\<close> an error whose Unwrap method returns \<open>e\<close>. A Go
  error variable is an optional error: nil is \<open>None\<close>.
\<close>

datatype error =
    ErrObjectNotFound
  | ErrNotFound
  | EOF
  | ErrorString string
  | Wrap string error

text \<open>errors.Is follows the chain of wrapped errors; a nil error is no target's.\<close>

fun unwraps_to :: "error \<Rightarrow> error \<Rightarrow> bool" where
  "unwraps_to (Wrap msg e) target = (Wrap msg e = target \<or> unwraps_to e target)"
| "unwraps_to e target = (e = target)"

definition errors_Is :: "error option \<Rightarrow> error \<Rightarrow> bool" where
  "errors_Is err target = (case err of None \<Rightarrow> False | Some e \<Rightarrow> unwraps_to e target)"

text \<open>strings.HasPrefix and strings.TrimPrefix.\<close>

definition HasPrefix :: "string \<Rightarrow> string \<Rightarrow> bool" where
  "HasPrefix s p = (length p \<le> length s \<and> take (length p) s = p)"

definition TrimPrefix :: "string \<Rightarrow> string \<Rightarrow> string" where
  "TrimPrefix s p = (if HasPrefix s p then drop (length p) s else s)"

text \<open>
  A download is an io.Reader: the outcomes of the Read calls it will answer, in
  order, each the bytes delivered and the error returned with them. Once they
  are used up, Read delivers nothing and returns EOF.
\<close>

type_synonym Download = "(bytes \<times> error option) list"

definition Read :: "Download \<Rightarrow> (bytes \<times> error option) \<times> Download" where
  "Read r = (case r of [] \<Rightarrow> (([], Some EOF), []) | outcome # rest \<Rightarrow> (outcome, rest))"

text \<open>
  ioutil.ReadAll: the loop appends what each Read delivered to the buffer \<open>b\<close>
  and returns at the first error, with the buffer as it is then; EOF is
  returned as no error.
\<close>

function ReadAll_loop :: "bytes \<Rightarrow> Download \<Rightarrow> bytes \<times> error option" where
  "ReadAll_loop b r =
     (case Read r of
        ((chunk, err), r') \<Rightarrow>
          if err \<noteq> None then (b @ chunk, if err = Some EOF then None else err)
          else ReadAll_loop (b @ chunk) r')"
  by pat_completeness auto
termination
  by (relation "measure (\<lambda>(b, r). length r)") (auto simp: Read_def split: list.splits)

declare ReadAll_loop.simps [simp del]

definition ReadAll :: "Download \<Rightarrow> bytes \<times> error option" where
  "ReadAll r = ReadAll_loop [] r"

subsection \<open>The uplink project\<close>

text \<open>
  An object as a listing or a stat call reports it: its key and, of its system
  metadata, the content length.
\<close>

record Object =
  obj_Key :: string
  ContentLength :: int64

record ListObjectsOptions =
  opt_Prefix :: string
  Cursor :: string
  Recursive :: bool
  System :: bool
  Custom :: bool

text \<open>
  The cursor of a listing: the objects it will still yield, the error with which
  the listing ends after them (none when it ends cleanly), and what its Err
  method returns now. \<open>iter_Next\<close> is Next followed by Item: the item when there
  is one more, and otherwise nothing, with the final error now reported by Err.
\<close>

record ObjectIterator =
  pending :: "Object list"
  final_err :: "error option"
  iter_Err :: "error option"

definition iter_Next :: "ObjectIterator \<Rightarrow> Object option \<times> ObjectIterator" where
  "iter_Next list =
     (case pending list of
        [] \<Rightarrow> (None, list\<lparr>iter_Err := final_err list\<rparr>)
      | item # rest \<Rightarrow> (Some item, list\<lparr>pending := rest\<rparr>))"

text \<open>
  The operations of the project that the adapter calls, each from the state of
  the service to a result and the next state. A Go result pair (value, error) is
  a sum, the error on the left. \<open>'u\<close> is the type of an upload in progress.
\<close>

record ('s, 'u) Project =
  UploadObject :: "string \<Rightarrow> string \<Rightarrow> 's \<Rightarrow> (error + 'u) \<times> 's"
  upload_Write :: "'u \<Rightarrow> bytes \<Rightarrow> 's \<Rightarrow> (error option \<times> 'u) \<times> 's"
  upload_Commit :: "'u \<Rightarrow> 's \<Rightarrow> error option \<times> 's"
  DownloadObject :: "string \<Rightarrow> string \<Rightarrow> 's \<Rightarrow> (error + Download) \<times> 's"
  StatObject :: "string \<Rightarrow> string \<Rightarrow> 's \<Rightarrow> (error + Object) \<times> 's"
  DeleteObject :: "string \<Rightarrow> string \<Rightarrow> 's \<Rightarrow> error option \<times> 's"
  ListObjects :: "string \<Rightarrow> ListObjectsOptions \<Rightarrow> 's \<Rightarrow> ObjectIterator \<times> 's"

subsection \<open>The datastore\<close>

record Config =
  AccessGrant :: string
  Bucket :: string
  LogFile :: string

record ('s, 'u) StorjDS = Config +
  Project :: "('s, 'u) Project"

text \<open>A datastore key (ds.Key) holds one string.\<close>

datatype Key = Key (key_String: string)

definition storjKey :: "Key \<Rightarrow> string" where
  "storjKey ipfsKey = TrimPrefix (key_String ipfsKey) ''/''"

definition isNotFound :: "error option \<Rightarrow> bool" where
  "isNotFound err = errors_Is err ErrObjectNotFound"

definition Put :: "('s, 'u) StorjDS \<Rightarrow> Key \<Rightarrow> bytes \<Rightarrow> 's \<Rightarrow> error option \<times> 's" where
  "Put storj key val s =
     (case UploadObject (Project storj) (Bucket storj) (storjKey key) s of
        (Inl err, s1) \<Rightarrow> (Some err, s1)
      | (Inr upload, s1) \<Rightarrow>
          (case upload_Write (Project storj) upload val s1 of
             ((Some err, upload'), s2) \<Rightarrow> (Some err, s2)
           | ((None, upload'), s2) \<Rightarrow> upload_Commit (Project storj) upload' s2))"

definition Sync :: "('s, 'u) StorjDS \<Rightarrow> Key \<Rightarrow> 's \<Rightarrow> error option \<times> 's" where
  "Sync storj prefix s = (None, s)"

definition Get :: "('s, 'u) StorjDS \<Rightarrow> Key \<Rightarrow> 's \<Rightarrow> (bytes \<times> error option) \<times> 's" where
  "Get storj key s =
     (case DownloadObject (Project storj) (Bucket storj) (storjKey key) s of
        (Inl err, s1) \<Rightarrow>
          if isNotFound (Some err) then (([], Some ErrNotFound), s1)
          else (([], Some err), s1)
      | (Inr download, s1) \<Rightarrow> (ReadAll download, s1))"

definition Has :: "('s, 'u) StorjDS \<Rightarrow> Key \<Rightarrow> 's \<Rightarrow> (bool \<times> error option) \<times> 's" where
  "Has storj key s =
     (case StatObject (Project storj) (Bucket storj) (storjKey key) s of
        (Inl err, s1) \<Rightarrow>
          if isNotFound (Some err) then ((False, None), s1)
          else ((False, Some err), s1)
      | (Inr obj, s1) \<Rightarrow> ((True, None), s1))"

definition GetSize :: "('s, 'u) StorjDS \<Rightarrow> Key \<Rightarrow> 's \<Rightarrow> (go_int \<times> error option) \<times> 's" where
  "GetSize storj key s =
     (case StatObject (Project storj) (Bucket storj) (storjKey key) s of
        (Inl err, s1) \<Rightarrow>
          if isNotFound (Some err) then ((- 1, Some ErrNotFound), s1)
          else ((- 1, Some err), s1)
      | (Inr obj, s1) \<Rightarrow> ((to_int (ContentLength obj), None), s1))"

definition Delete :: "('s, 'u) StorjDS \<Rightarrow> Key \<Rightarrow> 's \<Rightarrow> error option \<times> 's" where
  "Delete storj key s =
     (case DeleteObject (Project storj) (Bucket storj) (storjKey key) s of
        (err, s1) \<Rightarrow> if isNotFound err then (None, s1) else (err, s1))"


subsection \<open>Queries\<close>

text \<open>
  The query descriptor of go-datastore (dsq.Query). Its filters and orders are
  slices that the source compares with nil, so each is an optional list: nil is
  \<^term>\<open>None\<close>, and a slice with elements is never nil.
\<close>

datatype Filter = FilterKeyPrefix string | FilterKeyCompare string string

datatype Order = OrderByKey | OrderByKeyDescending | OrderByValue | OrderByValueDescending

record Query =
  Prefix :: string
  Filters :: "Filter list option"
  Orders :: "Order list option"
  Limit :: go_int
  Offset :: go_int
  KeysOnly :: bool
  ReturnExpirations :: bool
  ReturnsSizes :: bool

record Entry =
  entry_Key :: string
  entry_Value :: bytes
  entry_Size :: go_int

record Result =
  res_Entry :: Entry
  Error :: "error option"

definition no_Entry :: Entry where
  "no_Entry = \<lparr>entry_Key = [], entry_Value = [], entry_Size = 0\<rparr>"

text \<open>
  The result sequence is the iterator that Query hands to dsq.ResultsFromIterator:
  its Next closure, with the variables the closure captures (the descriptor, its
  prefix trimmed, and the cursor of the listing). Its Close closure does nothing.
\<close>

record Results =
  captured_q :: Query
  captured_list :: ObjectIterator

definition unsupported :: error where
  "unsupported = ErrorString ''storjds: filters or orders are not supported''"

definition Query ::
  "('s, 'u) StorjDS \<Rightarrow> Query \<Rightarrow> 's \<Rightarrow> (error + Results) \<times> 's" where
  "Query storj q s =
     (if Orders q \<noteq> None \<or> Filters q \<noteq> None then (Inl unsupported, s)
      else
        let q' = q\<lparr>Prefix := TrimPrefix (Prefix q) ''/''\<rparr> in
        (case ListObjects (Project storj) (Bucket storj)
                \<lparr>opt_Prefix = Prefix q', Cursor = [], Recursive = True,
                 System = True, Custom = False\<rparr> s of
           (list, s1) \<Rightarrow>
             (case iter_Err list of
                Some err \<Rightarrow> (Inl err, s1)
              | None \<Rightarrow> (Inr \<lparr>captured_q = q', captured_list = list\<rparr>, s1))))"

definition Results_Close :: "Results \<Rightarrow> error option" where
  "Results_Close r = None"

text \<open>The entry that Next builds from the item of the cursor.\<close>

definition item_entry :: "Object \<Rightarrow> Entry" where
  "item_entry item =
     \<lparr>entry_Key = ''/'' @ obj_Key item, entry_Value = [],
      entry_Size = to_int (ContentLength item)\<rparr>"

text \<open>
  \<open>NewKey\<close> is ds.NewKey of go-datastore, which makes a key of a string; it is
  a parameter of the model.
\<close>

definition Results_Next ::
  "(string \<Rightarrow> Key) \<Rightarrow> ('s, 'u) StorjDS \<Rightarrow> Results \<Rightarrow> 's \<Rightarrow> ((Result \<times> bool) \<times> Results) \<times> 's" where
  "Results_Next NewKey storj r s =
     (case iter_Next (captured_list r) of
        (None, list') \<Rightarrow>
          (case iter_Err list' of
             Some err \<Rightarrow>
               (((\<lparr>res_Entry = no_Entry, Error = Some err\<rparr>, False), r\<lparr>captured_list := list'\<rparr>), s)
           | None \<Rightarrow>
               (((\<lparr>res_Entry = no_Entry, Error = None\<rparr>, False), r\<lparr>captured_list := list'\<rparr>), s))
      | (Some item, list') \<Rightarrow>
          let entry = item_entry item in
          if \<not> KeysOnly (captured_q r) then
            (case Get storj (NewKey (entry_Key entry)) s of
               ((val, Some err), s1) \<Rightarrow>
                 (((\<lparr>res_Entry = no_Entry, Error = Some err\<rparr>, False), r\<lparr>captured_list := list'\<rparr>), s1)
             | ((val, None), s1) \<Rightarrow>
                 (((\<lparr>res_Entry = entry\<lparr>entry_Value := val\<rparr>, Error = None\<rparr>, True),
                   r\<lparr>captured_list := list'\<rparr>), s1))
          else
            (((\<lparr>res_Entry = entry, Error = None\<rparr>, True), r\<lparr>captured_list := list'\<rparr>), s))"

subsection \<open>Batches\<close>

record batchOp =
  op_value :: bytes
  op_delete :: bool

record ('s, 'u) storjBatch =
  storj :: "('s, 'u) StorjDS"
  ops :: "Key \<rightharpoonup> batchOp"

definition Batch ::
  "('s, 'u) StorjDS \<Rightarrow> 's \<Rightarrow> (('s, 'u) storjBatch \<times> error option) \<times> 's" where
  "Batch d s = ((\<lparr>storj = d, ops = Map.empty\<rparr>, None), s)"

definition batch_Put ::
  "('s, 'u) storjBatch \<Rightarrow> Key \<Rightarrow> bytes \<Rightarrow> 's \<Rightarrow> (error option \<times> ('s, 'u) storjBatch) \<times> 's" where
  "batch_Put b key val s =
     ((None, b\<lparr>ops := (ops b)(key \<mapsto> \<lparr>op_value = val, op_delete = False\<rparr>)\<rparr>), s)"

definition batch_Delete ::
  "('s, 'u) storjBatch \<Rightarrow> Key \<Rightarrow> 's \<Rightarrow> (error option \<times> ('s, 'u) storjBatch) \<times> 's" where
  "batch_Delete b key s =
     ((None, b\<lparr>ops := (ops b)(key \<mapsto> \<lparr>op_value = [], op_delete = True\<rparr>)\<rparr>), s)"

text \<open>
  Commit ranges over the map of pending operations. Go fixes no order for that:
  the order is the list \<open>ks\<close> of the map's keys, each once, in which the range
  statement visits them, and \<open>range_ops\<close> is the sequence of entries visited.
\<close>

definition iteration_order :: "(Key \<rightharpoonup> batchOp) \<Rightarrow> Key list \<Rightarrow> bool" where
  "iteration_order m ks = (distinct ks \<and> set ks = dom m)"

definition range_ops :: "(Key \<rightharpoonup> batchOp) \<Rightarrow> Key list \<Rightarrow> (Key \<times> batchOp) list" where
  "range_ops m ks = List.map_filter (\<lambda>k. map_option (Pair k) (m k)) ks"

definition apply_op :: "('s, 'u) StorjDS \<Rightarrow> Key \<Rightarrow> batchOp \<Rightarrow> 's \<Rightarrow> error option \<times> 's" where
  "apply_op d key bop s =
     (if op_delete bop then Delete d key s else Put d key (op_value bop) s)"

fun Commit_loop ::
  "('s, 'u) StorjDS \<Rightarrow> (Key \<times> batchOp) list \<Rightarrow> 's \<Rightarrow> error option \<times> 's" where
  "Commit_loop d [] s = (None, s)"
| "Commit_loop d ((key, bop) # rest) s =
     (case apply_op d key bop s of
        (Some err, s1) \<Rightarrow> (Some err, s1)
      | (None, s1) \<Rightarrow> Commit_loop d rest s1)"

definition Commit :: "('s, 'u) storjBatch \<Rightarrow> Key list \<Rightarrow> 's \<Rightarrow> error option \<times> 's" where
  "Commit b ks s = Commit_loop (storj b) (range_ops (ops b) ks) s"


subsection \<open>Reading a result sequence to its end\<close>

text \<open>
  A consumer calls Next until it returns false. \<open>drain\<close> is the sequence of
  results returned with true, the last result (the one returned with false) and
  the state of the service afterwards. Each true answer takes one object from
  the cursor, so the consumer always comes to an end.
\<close>

lemma Results_Next_more:
  "Results_Next NewKey d r s = (((res, True), r'), s') \<Longrightarrow>
   length (pending (captured_list r')) < length (pending (captured_list r))"
  by (auto simp: Results_Next_def iter_Next_def Let_def
      split: list.splits option.splits prod.splits if_splits)

function drain ::
  "(string \<Rightarrow> Key) \<Rightarrow> ('s, 'u) StorjDS \<Rightarrow> Results \<Rightarrow> 's \<Rightarrow> (Result list \<times> Result) \<times> 's" where
  "drain NewKey d r s =
     (case Results_Next NewKey d r s of
        (((res, ok), r'), s') \<Rightarrow>
          if ok then
            (case drain NewKey d r' s' of
               ((rs, final), s'') \<Rightarrow> ((res # rs, final), s''))
          else (([], res), s'))"
  by pat_completeness auto
termination
  by (relation "measure (\<lambda>(NewKey, d, r, s). length (pending (captured_list r)))")
     (auto dest: Results_Next_more [OF sym])

declare drain.simps [simp del]

subsection \<open>Observing the calls to the service\<close>

text \<open>
  \<open>traced p\<close> is the project \<open>p\<close> with a record of the calls made to it: each
  operation does what it does in \<open>p\<close> and adds itself to the end of the record.
  The adapter is run on it unchanged.
\<close>

datatype call =
    Call_UploadObject string string
  | Call_Write bytes
  | Call_Commit
  | Call_DownloadObject string string
  | Call_StatObject string string
  | Call_DeleteObject string string
  | Call_ListObjects string ListObjectsOptions

definition logged :: "call \<Rightarrow> ('s \<Rightarrow> 'a \<times> 's) \<Rightarrow> 's \<times> call list \<Rightarrow> 'a \<times> 's \<times> call list" where
  "logged c f st = (case st of (s, tr) \<Rightarrow> (case f s of (x, s') \<Rightarrow> (x, s', tr @ [c])))"

definition traced :: "('s, 'u) Project \<Rightarrow> ('s \<times> call list, 'u) Project" where
  "traced p =
     \<lparr>UploadObject = (\<lambda>bucket key. logged (Call_UploadObject bucket key) (UploadObject p bucket key)),
      upload_Write = (\<lambda>u data. logged (Call_Write data) (upload_Write p u data)),
      upload_Commit = (\<lambda>u. logged Call_Commit (upload_Commit p u)),
      DownloadObject = (\<lambda>bucket key. logged (Call_DownloadObject bucket key) (DownloadObject p bucket key)),
      StatObject = (\<lambda>bucket key. logged (Call_StatObject bucket key) (StatObject p bucket key)),
      DeleteObject = (\<lambda>bucket key. logged (Call_DeleteObject bucket key) (DeleteObject p bucket key)),
      ListObjects = (\<lambda>bucket opts. logged (Call_ListObjects bucket opts) (ListObjects p bucket opts))\<rparr>"

definition with_trace :: "('s, 'u) StorjDS \<Rightarrow> ('s \<times> call list, 'u) StorjDS" where
  "with_trace d =
     \<lparr>AccessGrant = AccessGrant d, Bucket = Bucket d, LogFile = LogFile d,
      Project = traced (Project d)\<rparr>"

subsection \<open>A service held in memory\<close>

text \<open>
  A project to run the adapter on: the objects of one bucket as an association
  list from keys to contents, the keys whose upload the service refuses, the
  keys whose download breaks after the first byte, and whether the service
  cannot be reached at all. An upload in progress is its key and the bytes
  written so far. An absent object is reported with uplink's sentinel, wrapped
  as uplink wraps it.
\<close>

record mem =
  objects :: "(string \<times> bytes) list"
  refused :: "string list"
  broken :: "string list"
  unreachable :: bool

definition not_found :: "string \<Rightarrow> error" where
  "not_found key = Wrap (''uplink: object not found ('' @ key @ '')'') ErrObjectNotFound"

definition stat :: "string \<Rightarrow> bytes \<Rightarrow> Object" where
  "stat key content = \<lparr>obj_Key = key, ContentLength = of_nat (length content)\<rparr>"

definition refusal :: error where
  "refusal = ErrorString ''connection refused''"

definition mem_project :: "(mem, string \<times> bytes) Project" where
  "mem_project =
     \<lparr>UploadObject = (\<lambda>bucket key s.
        if unreachable s then (Inl refusal, s)
        else if key \<in> set (refused s) then (Inl (ErrorString ''upload refused''), s)
        else (Inr (key, []), s)),
      upload_Write = (\<lambda>u data s. ((None, (fst u, snd u @ data)), s)),
      upload_Commit = (\<lambda>u s. (None, s\<lparr>objects := AList.update (fst u) (snd u) (objects s)\<rparr>)),
      DownloadObject = (\<lambda>bucket key s.
        if unreachable s then (Inl refusal, s)
        else
          (case map_of (objects s) key of
             None \<Rightarrow> (Inl (not_found key), s)
           | Some content \<Rightarrow>
               if key \<in> set (broken s)
               then (Inr [(take 1 content, None), ([], Some (ErrorString ''stream reset''))], s)
               else (Inr [(content, None)], s))),
      StatObject = (\<lambda>bucket key s.
        if unreachable s then (Inl refusal, s)
        else
          (case map_of (objects s) key of
             None \<Rightarrow> (Inl (not_found key), s)
           | Some content \<Rightarrow> (Inr (stat key content), s))),
      DeleteObject = (\<lambda>bucket key s.
        if unreachable s then (Some refusal, s)
        else
          (case map_of (objects s) key of
             None \<Rightarrow> (Some (not_found key), s)
           | Some content \<Rightarrow> (None, s\<lparr>objects := AList.delete key (objects s)\<rparr>))),
      ListObjects = (\<lambda>bucket opts s.
        if unreachable s then (\<lparr>pending = [], final_err = Some refusal, iter_Err = None\<rparr>, s)
        else
          (\<lparr>pending = map (\<lambda>kv. stat (fst kv) (snd kv))
                        (filter (\<lambda>kv. HasPrefix (fst kv) (opt_Prefix opts)) (objects s)),
            final_err = None, iter_Err = None\<rparr>, s))\<rparr>"

definition mem_ds :: "(mem, string \<times> bytes) StorjDS" where
  "mem_ds = \<lparr>AccessGrant = ''grant'', Bucket = ''bucket'', LogFile = [], Project = mem_project\<rparr>"

definition empty_mem :: mem where
  "empty_mem = \<lparr>objects = [], refused = [], broken = [], unreachable = False\<rparr>"

text \<open>A bucket with three objects, and a query for the keys under \<open>/a\<close>.\<close>

definition example_mem :: mem where
  "example_mem =
     \<lparr>objects = [(''a/1'', ''x''), (''a/2'', ''y''), (''b/1'', ''z'')], refused = [], broken = [], unreachable = False\<rparr>"

definition example_query :: Query where
  "example_query =
     \<lparr>Prefix = ''/a'', Filters = None, Orders = None, Limit = 0, Offset = 0,
      KeysOnly = False, ReturnExpirations = False, ReturnsSizes = False\<rparr>"


subsection \<open>Sequences of calls on a batch\<close>

text \<open>
  A caller builds a batch by a sequence of Put and Delete calls; \<open>do_calls\<close>
  makes them in order and collects what each returned.
\<close>

datatype batch_call = BatchPut Key bytes | BatchDelete Key

fun call_key :: "batch_call \<Rightarrow> Key" where
  "call_key (BatchPut key val) = key"
| "call_key (BatchDelete key) = key"

text \<open>The pending operation that stands for a call.\<close>

fun call_op :: "batch_call \<Rightarrow> batchOp" where
  "call_op (BatchPut key val) = \<lparr>op_value = val, op_delete = False\<rparr>"
| "call_op (BatchDelete key) = \<lparr>op_value = [], op_delete = True\<rparr>"

fun do_call ::
  "('s, 'u) storjBatch \<Rightarrow> batch_call \<Rightarrow> 's \<Rightarrow> (error option \<times> ('s, 'u) storjBatch) \<times> 's" where
  "do_call b (BatchPut key val) s = batch_Put b key val s"
| "do_call b (BatchDelete key) s = batch_Delete b key s"

fun do_calls ::
  "('s, 'u) storjBatch \<Rightarrow> batch_call list \<Rightarrow> 's \<Rightarrow>
     (error option list \<times> ('s, 'u) storjBatch) \<times> 's" where
  "do_calls b [] s = (([], b), s)"
| "do_calls b (c # cs) s =
     (case do_call b c s of
        ((e, b'), s') \<Rightarrow>
          (case do_calls b' cs s' of ((es, b''), s'') \<Rightarrow> ((e # es, b''), s'')))"

section \<open>Properties\<close>

subsection \<open>Evaluation on the service held in memory\<close>

lemmas run_defs =
  mem_ds_def mem_project_def empty_mem_def storjKey_def TrimPrefix_def HasPrefix_def
  isNotFound_def errors_Is_def not_found_def stat_def Put_def Get_def Has_def GetSize_def
  Delete_def ReadAll_def Query_def Results_Next_def iter_Next_def item_entry_def to_int_def
  no_Entry_def apply_op_def Commit_def range_ops_def List.map_filter_simps Batch_def
  batch_Put_def batch_Delete_def iteration_order_def with_trace_def traced_def logged_def
  unsupported_def example_mem_def example_query_def ReadAll_loop.simps Read_def
  refusal_def

subsection \<open>The key codec\<close>

lemma TrimPrefix_slash: "TrimPrefix (CHR ''/'' # p) ''/'' = p"
  by (simp add: TrimPrefix_def HasPrefix_def)

lemma to_int_id: "to_int x = x"
  by (simp add: to_int_def)

text \<open>
  C1: for every datastore key whose string begins with the separator, stripping
  the separator (storjKey) and prepending it again, as Query does for the key of
  a listed object, gives the key's string back.
\<close>

theorem storjKey_roundtrip:
  "HasPrefix (key_String K) ''/'' \<Longrightarrow>
   ''/'' @ storjKey K = key_String K \<and>
   entry_Key (item_entry \<lparr>obj_Key = storjKey K, ContentLength = n\<rparr>) = key_String K"
  by (cases "key_String K")
     (auto simp: storjKey_def TrimPrefix_def HasPrefix_def item_entry_def)

theorem storjKey_roundtrip_witness:
  "HasPrefix (key_String (Key ''/a/b'')) ''/'' \<and>
   storjKey (Key ''/a/b'') = ''a/b'' \<and>
   ''/'' @ storjKey (Key ''/a/b'') = ''/a/b'' \<and>
   entry_Key (item_entry \<lparr>obj_Key = storjKey (Key ''/a/b''), ContentLength = 7\<rparr>) = ''/a/b''"
proof -
  have h: "HasPrefix (key_String (Key ''/a/b'')) ''/''"
    by (simp add: HasPrefix_def)
  have k: "storjKey (Key ''/a/b'') = ''a/b''"
    by (simp add: storjKey_def TrimPrefix_def HasPrefix_def)
  from storjKey_roundtrip [OF h, of 7] h k show ?thesis
    by simp
qed

subsection \<open>Errors of the single-key operations\<close>

text \<open>
  C7: when the stat call reports not-found, GetSize returns the datastore's
  not-found error (with -1, and no nil error); when the stat call succeeds it
  returns the content length of the object's metadata and no error; any other
  error of the stat call is returned as it is.
\<close>

theorem GetSize_results:
  "(StatObject (Project d) (Bucket d) (storjKey K) s = (Inl e, s1) \<and> isNotFound (Some e)
      \<longrightarrow> GetSize d K s = ((- 1, Some ErrNotFound), s1)) \<and>
   (StatObject (Project d) (Bucket d) (storjKey K) s = (Inr obj, s1)
      \<longrightarrow> GetSize d K s = ((ContentLength obj, None), s1)) \<and>
   (StatObject (Project d) (Bucket d) (storjKey K) s = (Inl e, s1) \<and> \<not> isNotFound (Some e)
      \<longrightarrow> GetSize d K s = ((- 1, Some e), s1))"
  by (simp add: GetSize_def to_int_id)

theorem GetSize_results_witness:
  "GetSize mem_ds (Key ''/a'') (empty_mem\<lparr>unreachable := True\<rparr>) =
     ((- 1, Some (ErrorString ''connection refused'')), empty_mem\<lparr>unreachable := True\<rparr>) \<and>
   GetSize mem_ds (Key ''/a'') empty_mem = ((- 1, Some ErrNotFound), empty_mem) \<and>
   GetSize mem_ds (Key ''/a'') \<lparr>objects = [(''a'', ''hello'')], refused = [], broken = [], unreachable = False\<rparr> =
     ((5, None), \<lparr>objects = [(''a'', ''hello'')], refused = [], broken = [], unreachable = False\<rparr>)"
proof -
  let ?s = "\<lparr>objects = [(''a'', ''hello'')], refused = [], broken = [], unreachable = False\<rparr>"
  have absent: "StatObject (Project mem_ds) (Bucket mem_ds) (storjKey (Key ''/a'')) empty_mem =
      (Inl (not_found ''a''), empty_mem) \<and> isNotFound (Some (not_found ''a''))"
    by (simp add: run_defs)
  have present: "StatObject (Project mem_ds) (Bucket mem_ds) (storjKey (Key ''/a'')) ?s =
      (Inr \<lparr>obj_Key = ''a'', ContentLength = 5\<rparr>, ?s)"
    by (simp add: run_defs)
  have down: "StatObject (Project mem_ds) (Bucket mem_ds) (storjKey (Key ''/a''))
      (empty_mem\<lparr>unreachable := True\<rparr>) = (Inl refusal, empty_mem\<lparr>unreachable := True\<rparr>) \<and>
      \<not> isNotFound (Some refusal)"
    by (simp add: run_defs)
  from GetSize_results [of mem_ds "Key ''/a''" "empty_mem\<lparr>unreachable := True\<rparr>" refusal
      "empty_mem\<lparr>unreachable := True\<rparr>"] down
  have "GetSize mem_ds (Key ''/a'') (empty_mem\<lparr>unreachable := True\<rparr>) =
      ((- 1, Some refusal), empty_mem\<lparr>unreachable := True\<rparr>)"
    by blast
  moreover
  from GetSize_results [of mem_ds "Key ''/a''" empty_mem "not_found ''a''" empty_mem] absent
  have "GetSize mem_ds (Key ''/a'') empty_mem = ((- 1, Some ErrNotFound), empty_mem)"
    by blast
  moreover
  from GetSize_results [of mem_ds "Key ''/a''" ?s _ ?s "\<lparr>obj_Key = ''a'', ContentLength = 5\<rparr>"] present
  have "GetSize mem_ds (Key ''/a'') ?s = ((5, None), ?s)"
    by simp
  ultimately show ?thesis by (simp add: refusal_def)
qed

text \<open>
  C8: Has returns (false, nil) when the stat call reports not-found, (true, nil)
  when the stat call succeeds, and (false, err) for any other error err of the
  stat call; in the not-found case the error it returns is nil.
\<close>

theorem Has_results:
  "(StatObject (Project d) (Bucket d) (storjKey K) s = (Inl e, s1) \<and> isNotFound (Some e)
      \<longrightarrow> Has d K s = ((False, None), s1)) \<and>
   (StatObject (Project d) (Bucket d) (storjKey K) s = (Inr obj, s1)
      \<longrightarrow> Has d K s = ((True, None), s1)) \<and>
   (StatObject (Project d) (Bucket d) (storjKey K) s = (Inl e, s1) \<and> \<not> isNotFound (Some e)
      \<longrightarrow> Has d K s = ((False, Some e), s1))"
  by (simp add: Has_def)

theorem Has_results_witness:
  "Has mem_ds (Key ''/a'') (empty_mem\<lparr>unreachable := True\<rparr>) =
     ((False, Some (ErrorString ''connection refused'')), empty_mem\<lparr>unreachable := True\<rparr>) \<and>
   Has mem_ds (Key ''/a'') empty_mem = ((False, None), empty_mem) \<and>
   Has mem_ds (Key ''/a'') (snd (Put mem_ds (Key ''/a'') ''hello'' empty_mem)) =
     ((True, None), \<lparr>objects = [(''a'', ''hello'')], refused = [], broken = [], unreachable = False\<rparr>)"
proof -
  let ?s = "\<lparr>objects = [(''a'', ''hello'')], refused = [], broken = [], unreachable = False\<rparr>"
  have put: "snd (Put mem_ds (Key ''/a'') ''hello'' empty_mem) = ?s"
    by (simp add: run_defs)
  have absent: "StatObject (Project mem_ds) (Bucket mem_ds) (storjKey (Key ''/a'')) empty_mem =
      (Inl (not_found ''a''), empty_mem) \<and> isNotFound (Some (not_found ''a''))"
    by (simp add: run_defs)
  have present: "StatObject (Project mem_ds) (Bucket mem_ds) (storjKey (Key ''/a'')) ?s =
      (Inr \<lparr>obj_Key = ''a'', ContentLength = 5\<rparr>, ?s)"
    by (simp add: run_defs)
  have down: "StatObject (Project mem_ds) (Bucket mem_ds) (storjKey (Key ''/a''))
      (empty_mem\<lparr>unreachable := True\<rparr>) = (Inl refusal, empty_mem\<lparr>unreachable := True\<rparr>) \<and>
      \<not> isNotFound (Some refusal)"
    by (simp add: run_defs)
  from Has_results [of mem_ds "Key ''/a''" "empty_mem\<lparr>unreachable := True\<rparr>" refusal
      "empty_mem\<lparr>unreachable := True\<rparr>"] down
  have "Has mem_ds (Key ''/a'') (empty_mem\<lparr>unreachable := True\<rparr>) =
      ((False, Some refusal), empty_mem\<lparr>unreachable := True\<rparr>)"
    by blast
  moreover
  from Has_results [of mem_ds "Key ''/a''" empty_mem "not_found ''a''" empty_mem] absent
  have "Has mem_ds (Key ''/a'') empty_mem = ((False, None), empty_mem)"
    by blast
  moreover
  from Has_results [of mem_ds "Key ''/a''" ?s _ ?s "\<lparr>obj_Key = ''a'', ContentLength = 5\<rparr>"] present
  have "Has mem_ds (Key ''/a'') ?s = ((True, None), ?s)"
    by simp
  ultimately show ?thesis by (simp add: put refusal_def)
qed

text \<open>
  C9: Delete returns no error when the delete call of the service reports
  not-found, and returns any other outcome of the call (no error, or an error
  that is not not-found) as it is.
\<close>

theorem Delete_results:
  "(DeleteObject (Project d) (Bucket d) (storjKey K) s = (err, s1) \<and> isNotFound err
      \<longrightarrow> Delete d K s = (None, s1)) \<and>
   (DeleteObject (Project d) (Bucket d) (storjKey K) s = (err, s1) \<and> \<not> isNotFound err
      \<longrightarrow> Delete d K s = (err, s1))"
  by (simp add: Delete_def)

theorem Delete_results_witness:
  "Delete mem_ds (Key ''/a'') (empty_mem\<lparr>unreachable := True\<rparr>) =
     (Some (ErrorString ''connection refused''), empty_mem\<lparr>unreachable := True\<rparr>) \<and>
   Delete mem_ds (Key ''/a'') empty_mem = (None, empty_mem) \<and>
   Delete mem_ds (Key ''/a'') \<lparr>objects = [(''a'', ''hello'')], refused = [], broken = [], unreachable = False\<rparr> =
     (None, empty_mem) \<and>
   Delete mem_ds (Key ''/a'')
     (snd (Delete mem_ds (Key ''/a'') (snd (Put mem_ds (Key ''/a'') ''hello'' empty_mem)))) =
     (None, empty_mem)"
proof -
  let ?s = "\<lparr>objects = [(''a'', ''hello'')], refused = [], broken = [], unreachable = False\<rparr>"
  have put: "snd (Put mem_ds (Key ''/a'') ''hello'' empty_mem) = ?s"
    by (simp add: run_defs)
  have absent: "DeleteObject (Project mem_ds) (Bucket mem_ds) (storjKey (Key ''/a'')) empty_mem =
      (Some (not_found ''a''), empty_mem) \<and> isNotFound (Some (not_found ''a''))"
    by (simp add: run_defs)
  have present: "DeleteObject (Project mem_ds) (Bucket mem_ds) (storjKey (Key ''/a'')) ?s =
      (None, empty_mem) \<and> \<not> isNotFound None"
    by (simp add: run_defs)
  from Delete_results [of mem_ds "Key ''/a''" empty_mem "Some (not_found ''a'')" empty_mem] absent
  have first: "Delete mem_ds (Key ''/a'') empty_mem = (None, empty_mem)"
    by blast
  from Delete_results [of mem_ds "Key ''/a''" ?s None empty_mem] present
  have second: "Delete mem_ds (Key ''/a'') ?s = (None, empty_mem)"
    by blast
  have down: "DeleteObject (Project mem_ds) (Bucket mem_ds) (storjKey (Key ''/a''))
      (empty_mem\<lparr>unreachable := True\<rparr>) = (Some refusal, empty_mem\<lparr>unreachable := True\<rparr>) \<and>
      \<not> isNotFound (Some refusal)"
    by (simp add: run_defs)
  from Delete_results [of mem_ds "Key ''/a''" "empty_mem\<lparr>unreachable := True\<rparr>" "Some refusal"
      "empty_mem\<lparr>unreachable := True\<rparr>"] down
  have third: "Delete mem_ds (Key ''/a'') (empty_mem\<lparr>unreachable := True\<rparr>) =
      (Some refusal, empty_mem\<lparr>unreachable := True\<rparr>)"
    by blast
  from first second third show ?thesis by (simp add: put refusal_def)
qed


subsection \<open>Batches\<close>

lemma do_call_result:
  "do_call b c s = ((None, b\<lparr>ops := (ops b)(call_key c \<mapsto> call_op c)\<rparr>), s)"
  by (cases c) (simp_all add: batch_Put_def batch_Delete_def)

lemma do_calls_result:
  "do_calls b cs s =
     ((replicate (length cs) None,
       foldl (\<lambda>b c. b\<lparr>ops := (ops b)(call_key c \<mapsto> call_op c)\<rparr>) b cs), s)"
  by (induction cs arbitrary: b) (simp_all add: do_call_result)

lemma foldl_calls_ops:
  "ops (foldl (\<lambda>b c. b\<lparr>ops := (ops b)(call_key c \<mapsto> call_op c)\<rparr>) b cs) k =
     (case find (\<lambda>c. call_key c = k) (rev cs) of
        None \<Rightarrow> ops b k
      | Some c \<Rightarrow> Some (call_op c))"
  by (induction cs rule: rev_induct) simp_all

lemma foldl_calls_storj:
  "storj (foldl (\<lambda>b c. b\<lparr>ops := (ops b)(call_key c \<mapsto> call_op c)\<rparr>) b cs) = storj b"
  by (induction cs rule: rev_induct) simp_all

lemma range_ops_single:
  assumes "iteration_order (Map.empty(k \<mapsto> v)) ks"
  shows "range_ops (Map.empty(k \<mapsto> v)) ks = [(k, v)]"
proof -
  from assms have "distinct ks" and "set ks = {k}"
    by (simp_all add: iteration_order_def)
  then have "ks = [k]"
    by (cases ks) (auto simp: distinct_length_2_or_more dest!: subset_singletonD)
  then show ?thesis
    by (simp add: range_ops_def List.map_filter_simps)
qed

lemma Commit_loop_append:
  "Commit_loop d before s = (None, s1) \<Longrightarrow>
   Commit_loop d (before @ rest) s = Commit_loop d rest s1"
  by (induction before arbitrary: s) (auto split: prod.splits option.splits)

text \<open>
  C2: after any sequence of Put and Delete calls on a batch, the pending
  operation of a key is that of the last call on the key (the one found first
  from the end), and the key's earlier state when no call names it. For the
  calls Put(K1,V1), Delete(K1), Put(K1,V2) on a new batch, the map holds the
  one entry K1 with the write of V2, and Commit, in whatever order it ranges
  over the map, does what the single Put(K1,V2) on the datastore does.
\<close>

theorem batch_last_call_wins:
  "ops (snd (fst (do_calls b cs s))) k =
     (case find (\<lambda>c. call_key c = k) (rev cs) of
        None \<Rightarrow> ops b k
      | Some c \<Rightarrow> Some (call_op c)) \<and>
   (Batch d s0 = ((b0, e0), s1) \<and>
    batch_Put b0 K1 V1 s1 = ((e1, b1), s2) \<and>
    batch_Delete b1 K1 s2 = ((e2, b2), s3) \<and>
    batch_Put b2 K1 V2 s3 = ((e3, b3), s4) \<and>
    iteration_order (ops b3) ks \<longrightarrow>
      range_ops (ops b3) ks = [(K1, \<lparr>op_value = V2, op_delete = False\<rparr>)] \<and>
      Commit b3 ks s4 = Put d K1 V2 s0)"
proof (intro conjI impI)
  show "ops (snd (fst (do_calls b cs s))) k =
     (case find (\<lambda>c. call_key c = k) (rev cs) of
        None \<Rightarrow> ops b k
      | Some c \<Rightarrow> Some (call_op c))"
    by (simp add: do_calls_result foldl_calls_ops)
next
  assume a: "Batch d s0 = ((b0, e0), s1) \<and>
    batch_Put b0 K1 V1 s1 = ((e1, b1), s2) \<and>
    batch_Delete b1 K1 s2 = ((e2, b2), s3) \<and>
    batch_Put b2 K1 V2 s3 = ((e3, b3), s4) \<and>
    iteration_order (ops b3) ks"
  then have b3: "ops b3 = Map.empty(K1 \<mapsto> \<lparr>op_value = V2, op_delete = False\<rparr>)"
    and d: "storj b3 = d" and s: "s4 = s0"
    by (auto simp: Batch_def batch_Put_def batch_Delete_def)
  from a b3 show r: "range_ops (ops b3) ks = [(K1, \<lparr>op_value = V2, op_delete = False\<rparr>)]"
    by (simp add: range_ops_single)
  show "Commit b3 ks s4 = Put d K1 V2 s0"
    by (simp add: Commit_def r d s apply_op_def split: prod.splits option.splits)
qed

theorem batch_last_call_wins_witness:
  "iteration_order
     (ops \<lparr>storj = mem_ds, ops = [Key ''/k'' \<mapsto> \<lparr>op_value = ''two'', op_delete = False\<rparr>]\<rparr>)
     [Key ''/k''] \<and>
   snd (fst (do_calls \<lparr>storj = mem_ds, ops = Map.empty\<rparr>
     [BatchPut (Key ''/k'') ''one'', BatchDelete (Key ''/k''), BatchPut (Key ''/k'') ''two'']
     empty_mem)) =
     \<lparr>storj = mem_ds, ops = [Key ''/k'' \<mapsto> \<lparr>op_value = ''two'', op_delete = False\<rparr>]\<rparr> \<and>
   Commit \<lparr>storj = mem_ds, ops = [Key ''/k'' \<mapsto> \<lparr>op_value = ''two'', op_delete = False\<rparr>]\<rparr>
     [Key ''/k''] empty_mem =
     (None, \<lparr>objects = [(''k'', ''two'')], refused = [], broken = [], unreachable = False\<rparr>)"
proof -
  let ?K = "Key ''/k''"
  let ?b0 = "\<lparr>storj = mem_ds, ops = Map.empty\<rparr>"
  let ?b1 = "\<lparr>storj = mem_ds, ops = [?K \<mapsto> \<lparr>op_value = ''one'', op_delete = False\<rparr>]\<rparr>"
  let ?b2 = "\<lparr>storj = mem_ds, ops = [?K \<mapsto> \<lparr>op_value = [], op_delete = True\<rparr>]\<rparr>"
  let ?b3 = "\<lparr>storj = mem_ds, ops = [?K \<mapsto> \<lparr>op_value = ''two'', op_delete = False\<rparr>]\<rparr>"
  have calls: "Batch mem_ds empty_mem = ((?b0, None), empty_mem) \<and>
    batch_Put ?b0 ?K ''one'' empty_mem = ((None, ?b1), empty_mem) \<and>
    batch_Delete ?b1 ?K empty_mem = ((None, ?b2), empty_mem) \<and>
    batch_Put ?b2 ?K ''two'' empty_mem = ((None, ?b3), empty_mem) \<and>
    iteration_order (ops ?b3) [?K]"
    by (simp add: Batch_def batch_Put_def batch_Delete_def iteration_order_def)
  have put: "Put mem_ds ?K ''two'' empty_mem =
      (None, \<lparr>objects = [(''k'', ''two'')], refused = [], broken = [], unreachable = False\<rparr>)"
    by (simp add: run_defs)
  have built: "snd (fst (do_calls ?b0
      [BatchPut ?K ''one'', BatchDelete ?K, BatchPut ?K ''two''] empty_mem)) = ?b3"
    by (simp add: batch_Put_def batch_Delete_def)
  from batch_last_call_wins [THEN conjunct2, rule_format, OF calls]
  have "Commit ?b3 [?K] empty_mem = Put mem_ds ?K ''two'' empty_mem"
    by simp
  with calls put built show ?thesis
    by simp
qed

text \<open>
  C3: when Commit ranges over the entries \<open>before\<close>, then \<open>(key, bop)\<close>, then
  \<open>rest\<close>, the operations of \<open>before\<close> succeed and leave the service in \<open>s1\<close>, and
  the operation of \<open>key\<close> fails there with \<open>err\<close> leaving \<open>s2\<close>, then Commit
  returns \<open>err\<close> and leaves the service in \<open>s2\<close>: nothing is undone and no
  operation of \<open>rest\<close> is made.
\<close>

theorem Commit_stops_at_first_error:
  assumes "range_ops (ops b) ks = before @ (key, bop) # rest"
    and "Commit_loop (storj b) before s = (None, s1)"
    and "apply_op (storj b) key bop s1 = (Some err, s2)"
  shows "Commit b ks s = (Some err, s2)"
  using assms by (simp add: Commit_def Commit_loop_append)


theorem Commit_stops_at_first_error_witness:
  "Commit
     \<lparr>storj = with_trace mem_ds,
      ops = [Key ''/a'' \<mapsto> \<lparr>op_value = ''x'', op_delete = False\<rparr>,
             Key ''/b'' \<mapsto> \<lparr>op_value = ''y'', op_delete = False\<rparr>,
             Key ''/c'' \<mapsto> \<lparr>op_value = ''z'', op_delete = False\<rparr>]\<rparr>
     [Key ''/a'', Key ''/b'', Key ''/c'']
     (\<lparr>objects = [], refused = [''b''], broken = [], unreachable = False\<rparr>, []) =
   (Some (ErrorString ''upload refused''),
    \<lparr>objects = [(''a'', ''x'')], refused = [''b''], broken = [], unreachable = False\<rparr>,
    [Call_UploadObject ''bucket'' ''a'', Call_Write ''x'', Call_Commit,
     Call_UploadObject ''bucket'' ''b''])"
proof -
  let ?b = "\<lparr>storj = with_trace mem_ds,
      ops = [Key ''/a'' \<mapsto> \<lparr>op_value = ''x'', op_delete = False\<rparr>,
             Key ''/b'' \<mapsto> \<lparr>op_value = ''y'', op_delete = False\<rparr>,
             Key ''/c'' \<mapsto> \<lparr>op_value = ''z'', op_delete = False\<rparr>]\<rparr>"
  let ?s = "(\<lparr>objects = [], refused = [''b''], broken = [], unreachable = False\<rparr>, [] :: call list)"
  let ?s1 = "(\<lparr>objects = [(''a'', ''x'')], refused = [''b''], broken = [], unreachable = False\<rparr>,
      [Call_UploadObject ''bucket'' ''a'', Call_Write ''x'', Call_Commit])"
  let ?s2 = "(\<lparr>objects = [(''a'', ''x'')], refused = [''b''], broken = [], unreachable = False\<rparr>,
      [Call_UploadObject ''bucket'' ''a'', Call_Write ''x'', Call_Commit,
       Call_UploadObject ''bucket'' ''b''])"
  have order: "range_ops (ops ?b) [Key ''/a'', Key ''/b'', Key ''/c''] =
      [(Key ''/a'', \<lparr>op_value = ''x'', op_delete = False\<rparr>)] @
      (Key ''/b'', \<lparr>op_value = ''y'', op_delete = False\<rparr>) #
      [(Key ''/c'', \<lparr>op_value = ''z'', op_delete = False\<rparr>)]"
    by (simp add: range_ops_def List.map_filter_simps)
  have first: "Commit_loop (storj ?b) [(Key ''/a'', \<lparr>op_value = ''x'', op_delete = False\<rparr>)] ?s =
      (None, ?s1)"
    by (simp add: run_defs)
  have second: "apply_op (storj ?b) (Key ''/b'') \<lparr>op_value = ''y'', op_delete = False\<rparr> ?s1 =
      (Some (ErrorString ''upload refused''), ?s2)"
    by (simp add: run_defs)
  from Commit_stops_at_first_error [OF order first second] show ?thesis .
qed

text \<open>
  C10: Put and Delete of a batch return nil and record the operation in the
  batch's map, leaving the state of the service as it is; so does every
  sequence of such calls: each returns nil, and the service, run with a record
  of the calls made to it, is left with the same record.
\<close>

theorem batch_calls_return_nil:
  "batch_Put b key val st =
     ((None, b\<lparr>ops := (ops b)(key \<mapsto> \<lparr>op_value = val, op_delete = False\<rparr>)\<rparr>), st) \<and>
   batch_Delete b key st =
     ((None, b\<lparr>ops := (ops b)(key \<mapsto> \<lparr>op_value = [], op_delete = True\<rparr>)\<rparr>), st) \<and>
   fst (fst (do_calls b cs st)) = replicate (length cs) None \<and>
   snd (do_calls b cs st) = st \<and>
   storj (snd (fst (do_calls b cs st))) = storj b \<and>
   snd (do_calls (b\<lparr>storj := with_trace d\<rparr>) cs (s, tr)) = (s, tr)"
  by (simp add: do_calls_result foldl_calls_storj batch_Put_def batch_Delete_def)

subsection \<open>Queries\<close>

text \<open>
  C4: a query whose orders or filters are a slice with elements is refused:
  Query returns the error for unsupported queries and no result sequence, and
  the service is in the state it was in, with no call added to the record of
  the calls made to it.
\<close>

theorem Query_unsupported:
  "(Orders q = Some os \<and> os \<noteq> []) \<or> (Filters q = Some fs \<and> fs \<noteq> []) \<Longrightarrow>
   Query d q s = (Inl unsupported, s) \<and>
   Query (with_trace d) q (s, tr) = (Inl unsupported, (s, tr))"
  by (auto simp: Query_def)

theorem Query_unsupported_witness:
  "Query mem_ds (example_query\<lparr>Orders := Some [OrderByKey]\<rparr>) example_mem =
     (Inl (ErrorString ''storjds: filters or orders are not supported''), example_mem) \<and>
   Query (with_trace mem_ds) (example_query\<lparr>Filters := Some [FilterKeyPrefix ''/a'']\<rparr>)
     (example_mem, []) =
     (Inl (ErrorString ''storjds: filters or orders are not supported''), (example_mem, []))"
proof -
  have o: "(Orders (example_query\<lparr>Orders := Some [OrderByKey]\<rparr>) = Some [OrderByKey] \<and>
      [OrderByKey] \<noteq> []) \<or>
    (Filters (example_query\<lparr>Orders := Some [OrderByKey]\<rparr>) = Some [] \<and> [] \<noteq> ([] :: Filter list))"
    by simp
  have f: "(Orders (example_query\<lparr>Filters := Some [FilterKeyPrefix ''/a'']\<rparr>) = Some [] \<and>
      [] \<noteq> ([] :: Order list)) \<or>
    (Filters (example_query\<lparr>Filters := Some [FilterKeyPrefix ''/a'']\<rparr>) =
      Some [FilterKeyPrefix ''/a''] \<and> [FilterKeyPrefix ''/a''] \<noteq> [])"
    by simp
  from Query_unsupported [OF o, of mem_ds example_mem]
       Query_unsupported [OF f, of mem_ds example_mem "[]"]
  show ?thesis by (simp add: unsupported_def)
qed


lemma Results_Next_true:
  "Results_Next NewKey d r s = (((res, True), r'), s') \<Longrightarrow>
   \<exists>item. pending (captured_list r) = item # pending (captured_list r') \<and>
     entry_Key (res_Entry res) = ''/'' @ obj_Key item \<and>
     entry_Size (res_Entry res) = ContentLength item \<and> Error res = None"
  by (auto simp: Results_Next_def iter_Next_def Let_def item_entry_def to_int_id
      split: list.splits option.splits prod.splits if_splits)

lemma drain_entries:
  "drain NewKey d r s = ((rs, final), s') \<Longrightarrow>
   map (\<lambda>x. (entry_Key (res_Entry x), entry_Size (res_Entry x), Error x)) rs =
   map (\<lambda>item. (''/'' @ obj_Key item, ContentLength item, None))
     (take (length rs) (pending (captured_list r)))"
proof (induction NewKey d r s arbitrary: rs rule: drain.induct)
  case (1 NewKey d r s)
  obtain res ok r' s1 where nxt: "Results_Next NewKey d r s = (((res, ok), r'), s1)"
    by (metis prod.exhaust)
  show ?case
  proof (cases ok)
    case False
    with nxt "1.prems" have "rs = []"
      by (simp add: drain.simps [of NewKey d r s])
    then show ?thesis by simp
  next
    case True
    obtain rs' final' s2 where rest: "drain NewKey d r' s1 = ((rs', final'), s2)"
      by (metis prod.exhaust)
    with nxt True "1.prems" have rs: "rs = res # rs'" and "final' = final" and "s2 = s'"
      by (simp_all add: drain.simps [of NewKey d r s])
    with rest have rest': "drain NewKey d r' s1 = ((rs', final), s')"
      by simp
    from nxt True have nxt': "Results_Next NewKey d r s = (((res, True), r'), s1)"
      by simp
    from Results_Next_true [OF nxt'] obtain item where
      p: "pending (captured_list r) = item # pending (captured_list r')" and
      e: "entry_Key (res_Entry res) = ''/'' @ obj_Key item"
         "entry_Size (res_Entry res) = ContentLength item" "Error res = None"
      by blast
    from "1.IH" [OF nxt [symmetric] refl refl True rest']
    show ?thesis by (simp add: rs p e)
  qed
qed

lemma Query_list:
  "Query d q s = (Inr r, s1) \<Longrightarrow>
   captured_list r = fst (ListObjects (Project d) (Bucket d)
     \<lparr>opt_Prefix = TrimPrefix (Prefix q) ''/'', Cursor = [], Recursive = True,
      System = True, Custom = False\<rparr> s)"
  by (auto simp: Query_def Let_def split: if_splits prod.splits option.splits)

lemma Query_calls:
  "snd (snd (Query (with_trace d) q (s, tr))) =
     (if Orders q \<noteq> None \<or> Filters q \<noteq> None then tr
      else tr @ [Call_ListObjects (Bucket d)
        \<lparr>opt_Prefix = TrimPrefix (Prefix q) ''/'', Cursor = [], Recursive = True,
         System = True, Custom = False\<rparr>])"
  by (simp add: Query_def Let_def with_trace_def traced_def logged_def
      split: prod.splits option.splits)

text \<open>
  C5: the only call Query makes to the service is the listing call, with the
  requested prefix trimmed of one leading separator (a prefix \<open>/p\<close> is sent as
  \<open>p\<close>), made unless the query is refused for its orders or filters. When Query
  returns a result sequence and a consumer reads it to its end, the entries it
  is given are, in order, those of the first objects of the listing: each with
  the separator followed by the object's key, the content length of the
  object's metadata as its size, and no error.
\<close>

theorem Query_listing_and_entries:
  "snd (snd (Query (with_trace d) q (s, tr))) =
     (if Orders q \<noteq> None \<or> Filters q \<noteq> None then tr
      else tr @ [Call_ListObjects (Bucket d)
        \<lparr>opt_Prefix = TrimPrefix (Prefix q) ''/'', Cursor = [], Recursive = True,
         System = True, Custom = False\<rparr>]) \<and>
   TrimPrefix (CHR ''/'' # p) ''/'' = p \<and>
   (Query d q s = (Inr r, s1) \<and> drain NewKey d r s1 = ((rs, final), s2) \<longrightarrow>
      map (\<lambda>x. (entry_Key (res_Entry x), entry_Size (res_Entry x), Error x)) rs =
      map (\<lambda>item. (''/'' @ obj_Key item, ContentLength item, None))
        (take (length rs)
          (pending (fst (ListObjects (Project d) (Bucket d)
            \<lparr>opt_Prefix = TrimPrefix (Prefix q) ''/'', Cursor = [], Recursive = True,
             System = True, Custom = False\<rparr> s)))))"
proof (intro conjI impI)
  assume a: "Query d q s = (Inr r, s1) \<and> drain NewKey d r s1 = ((rs, final), s2)"
  from a have "captured_list r = fst (ListObjects (Project d) (Bucket d)
     \<lparr>opt_Prefix = TrimPrefix (Prefix q) ''/'', Cursor = [], Recursive = True,
      System = True, Custom = False\<rparr> s)"
    by (simp add: Query_list)
  with a drain_entries [of NewKey d r s1 rs final s2]
  show "map (\<lambda>x. (entry_Key (res_Entry x), entry_Size (res_Entry x), Error x)) rs =
      map (\<lambda>item. (''/'' @ obj_Key item, ContentLength item, None))
        (take (length rs)
          (pending (fst (ListObjects (Project d) (Bucket d)
            \<lparr>opt_Prefix = TrimPrefix (Prefix q) ''/'', Cursor = [], Recursive = True,
             System = True, Custom = False\<rparr> s))))"
    by simp
qed (simp_all add: Query_calls TrimPrefix_slash)

theorem Query_listing_and_entries_witness:
  "snd (snd (Query (with_trace mem_ds) example_query (example_mem, []))) =
     [Call_ListObjects ''bucket''
        \<lparr>opt_Prefix = ''a'', Cursor = [], Recursive = True, System = True, Custom = False\<rparr>] \<and>
   (case Query mem_ds example_query example_mem of
      (Inl e, s1) \<Rightarrow> []
    | (Inr r, s1) \<Rightarrow> fst (fst (drain Key mem_ds r s1))) =
     [\<lparr>res_Entry = \<lparr>entry_Key = ''/a/1'', entry_Value = ''x'', entry_Size = 1\<rparr>, Error = None\<rparr>,
      \<lparr>res_Entry = \<lparr>entry_Key = ''/a/2'', entry_Value = ''y'', entry_Size = 1\<rparr>, Error = None\<rparr>] \<and>
   map (\<lambda>x. (entry_Key (res_Entry x), entry_Size (res_Entry x), Error x))
     [\<lparr>res_Entry = \<lparr>entry_Key = ''/a/1'', entry_Value = ''x'', entry_Size = 1\<rparr>, Error = None\<rparr>,
      \<lparr>res_Entry = \<lparr>entry_Key = ''/a/2'', entry_Value = ''y'', entry_Size = 1\<rparr>, Error = None\<rparr>] =
     map (\<lambda>item. (''/'' @ obj_Key item, ContentLength item, None))
       [\<lparr>obj_Key = ''a/1'', ContentLength = 1\<rparr>, \<lparr>obj_Key = ''a/2'', ContentLength = 1\<rparr>]"
proof -
  let ?r = "\<lparr>captured_q = example_query\<lparr>Prefix := ''a''\<rparr>,
     captured_list = \<lparr>pending = [\<lparr>obj_Key = ''a/1'', ContentLength = 1\<rparr>,
       \<lparr>obj_Key = ''a/2'', ContentLength = 1\<rparr>], final_err = None, iter_Err = None\<rparr>\<rparr>"
  let ?rs = "[\<lparr>res_Entry = \<lparr>entry_Key = ''/a/1'', entry_Value = ''x'', entry_Size = 1\<rparr>, Error = None\<rparr>,
      \<lparr>res_Entry = \<lparr>entry_Key = ''/a/2'', entry_Value = ''y'', entry_Size = 1\<rparr>, Error = None\<rparr>]"
  have q: "Query mem_ds example_query example_mem = (Inr ?r, example_mem)"
    by (simp add: run_defs Let_def)
  have dr: "drain Key mem_ds ?r example_mem =
      ((?rs, \<lparr>res_Entry = no_Entry, Error = None\<rparr>), example_mem)"
    by (simp add: drain.simps run_defs Let_def)
  have l: "pending (fst (ListObjects (Project mem_ds) (Bucket mem_ds)
      \<lparr>opt_Prefix = TrimPrefix (Prefix example_query) ''/'', Cursor = [], Recursive = True,
       System = True, Custom = False\<rparr> example_mem)) =
      [\<lparr>obj_Key = ''a/1'', ContentLength = 1\<rparr>, \<lparr>obj_Key = ''a/2'', ContentLength = 1\<rparr>]"
    by (simp add: run_defs)
  have t: "snd (snd (Query (with_trace mem_ds) example_query (example_mem, []))) =
     [Call_ListObjects ''bucket''
        \<lparr>opt_Prefix = ''a'', Cursor = [], Recursive = True, System = True, Custom = False\<rparr>]"
    using Query_listing_and_entries [THEN conjunct1, of mem_ds example_query example_mem "[]"]
    by (simp add: run_defs)
  from Query_listing_and_entries [THEN conjunct2, THEN conjunct2, rule_format, OF conjI, OF q dr]
  have "map (\<lambda>x. (entry_Key (res_Entry x), entry_Size (res_Entry x), Error x)) ?rs =
     map (\<lambda>item. (''/'' @ obj_Key item, ContentLength item, None))
       [\<lparr>obj_Key = ''a/1'', ContentLength = 1\<rparr>, \<lparr>obj_Key = ''a/2'', ContentLength = 1\<rparr>]"
    by (simp add: l)
  with t q dr show ?thesis
    by simp
qed

subsection \<open>Get and the bytes read before a failure\<close>

lemma Get_open_error:
  "DownloadObject (Project d) (Bucket d) (storjKey K) s = (Inl e, s1) \<Longrightarrow>
   Get d K s = (([], Some (if isNotFound (Some e) then ErrNotFound else e)), s1)"
  by (simp add: Get_def)

lemma Get_read_error:
  "DownloadObject (Project d) (Bucket d) (storjKey K) s = (Inr [(chunk, None), ([], Some e)], s1) \<Longrightarrow>
   e \<noteq> EOF \<Longrightarrow> Get d K s = ((chunk, Some e), s1)"
  by (simp add: Get_def ReadAll_def ReadAll_loop.simps Read_def)

text \<open>
  C6: the object \<open>a\<close> holds \<open>hello\<close> and its download breaks after the first
  byte. Get returns the error of the stream together with the byte \<open>h\<close> read
  before it, not an empty value.
\<close>

theorem Get_returns_bytes_read_before_error:
  "Get mem_ds (Key ''/a'') \<lparr>objects = [(''a'', ''hello'')], refused = [], broken = [''a''], unreachable = False\<rparr> =
     ((''h'', Some (ErrorString ''stream reset'')),
      \<lparr>objects = [(''a'', ''hello'')], refused = [], broken = [''a''], unreachable = False\<rparr>)"
  by (simp add: run_defs)

end
